theory Spec2Isabelle
  imports Main
begin

section \<open>Python string primitives\<close>

text \<open>
  Python \<open>str\<close> values are modelled as \<open>string\<close>, one \<open>char\<close> per code point.
  The model covers ASCII text: \<open>upper\<close>, \<open>lower\<close>, \<open>\d\<close> and whitespace are the ASCII
  parts of Python's Unicode-aware operations, and a character outside ASCII is treated
  as an ordinary symbol (neither letter, digit nor space).
\<close>

definition is_space :: "char \<Rightarrow> bool" where
  \<comment> \<open>\<open>str.isspace\<close> on ASCII, which is also what \<open>strip()\<close>, \<open>split()\<close> and \<open>\s\<close> use.\<close>
  "is_space c \<longleftrightarrow>
     c \<in> set [CHR 0x09, CHR 0x0A, CHR 0x0B, CHR 0x0C, CHR 0x0D,
              CHR 0x1C, CHR 0x1D, CHR 0x1E, CHR 0x1F, CHR '' '']"

definition is_digit :: "char \<Rightarrow> bool" where
  "is_digit c \<longleftrightarrow> c \<in> set ''0123456789''"

definition lstrip :: "string \<Rightarrow> string" where
  "lstrip s = dropWhile is_space s"

definition rstrip :: "string \<Rightarrow> string" where
  "rstrip s = rev (dropWhile is_space (rev s))"

definition strip :: "string \<Rightarrow> string" where
  "strip s = rstrip (lstrip s)"

definition upper_char :: "char \<Rightarrow> char" where
  "upper_char c =
     (case map_of (zip ''abcdefghijklmnopqrstuvwxyz'' ''ABCDEFGHIJKLMNOPQRSTUVWXYZ'') c of
        Some u \<Rightarrow> u | None \<Rightarrow> c)"

definition upper :: "string \<Rightarrow> string" where
  "upper s = map upper_char s"

definition str_of_digits :: "string \<Rightarrow> string" where
  \<comment> \<open>\<open>str(int(s))\<close> for a non-empty string of ASCII digits: leading zeros go.\<close>
  "str_of_digits ds =
     (case dropWhile (\<lambda>c. c = CHR ''0'') ds of [] \<Rightarrow> ''0'' | r \<Rightarrow> r)"

definition digit_val :: "char \<Rightarrow> nat" where
  "digit_val c = of_char c - 48"

definition nat_of_digits :: "string \<Rightarrow> nat" where
  "nat_of_digits ds = foldl (\<lambda>n c. 10 * n + digit_val c) 0 ds"

fun no_double_underscore :: "string \<Rightarrow> bool" where
  "no_double_underscore (a # b # r) \<longleftrightarrow>
     \<not> (a = CHR ''_'' \<and> b = CHR ''_'') \<and> no_double_underscore (b # r)"
| "no_double_underscore _ \<longleftrightarrow> True"

definition int_literal_body :: "string \<Rightarrow> bool" where
  \<comment> \<open>Digits, with single underscores allowed between digits.\<close>
  "int_literal_body b \<longleftrightarrow>
     b \<noteq> [] \<and> is_digit (hd b) \<and> is_digit (last b)
     \<and> list_all (\<lambda>c. is_digit c \<or> c = CHR ''_'') b \<and> no_double_underscore b"

definition py_int :: "string \<Rightarrow> int option" where
  \<comment> \<open>\<open>int(s)\<close> in base 10: surrounding whitespace, an optional sign, then the digits.
      \<open>None\<close> stands for \<open>ValueError\<close>.\<close>
  "py_int s =
     (let t = strip s;
          neg = (t \<noteq> [] \<and> hd t = CHR ''-'');
          body = (if t \<noteq> [] \<and> (hd t = CHR ''-'' \<or> hd t = CHR ''+'') then tl t else t)
      in if int_literal_body body
         then Some ((if neg then - 1 else 1) * int (nat_of_digits (filter is_digit body)))
         else None)"

fun split_on :: "char \<Rightarrow> string \<Rightarrow> string list" where
  \<comment> \<open>\<open>s.split(c)\<close> for a one-character separator: empty pieces are kept.\<close>
  "split_on c [] = [[]]"
| "split_on c (x # xs) =
     (if x = c then [] # split_on c xs
      else (case split_on c xs of w # ws \<Rightarrow> (x # w) # ws | [] \<Rightarrow> [[x]]))"

fun str_less :: "string \<Rightarrow> string \<Rightarrow> bool" where
  \<comment> \<open>\<open><\<close> on \<open>str\<close>: lexicographic by code point, a proper prefix first.\<close>
  "str_less [] [] \<longleftrightarrow> False"
| "str_less [] (y # ys) \<longleftrightarrow> True"
| "str_less (x # xs) [] \<longleftrightarrow> False"
| "str_less (x # xs) (y # ys) \<longleftrightarrow>
     (of_char x :: nat) < of_char y \<or> (x = y \<and> str_less xs ys)"

definition is_word_char :: "char \<Rightarrow> bool" where
  \<comment> \<open>\<open>\w\<close> on ASCII.\<close>
  "is_word_char c \<longleftrightarrow>
     c \<in> set ''abcdefghijklmnopqrstuvwxyzABCDEFGHIJKLMNOPQRSTUVWXYZ0123456789_''"

definition starts_with_ci :: "string \<Rightarrow> string \<Rightarrow> bool" where
  \<comment> \<open>The literal \<open>p\<close> matches at the start of \<open>s\<close>, ignoring case.\<close>
  "starts_with_ci p s \<longleftrightarrow> length p \<le> length s \<and> upper (take (length p) s) = upper p"

fun find_ci :: "string \<Rightarrow> string \<Rightarrow> (string \<times> string) option" where
  \<comment> \<open>The first place where the literal \<open>p\<close> occurs, ignoring case: the text before it
      and the text after it.\<close>
  "find_ci p [] = (if p = [] then Some ([], []) else None)"
| "find_ci p (c # cs) =
     (if starts_with_ci p (c # cs) then Some ([], drop (length p) (c # cs))
      else map_option (\<lambda>(b, a). (c # b, a)) (find_ci p cs))"

fun collapse_blanks :: "bool \<Rightarrow> string \<Rightarrow> string" where
  \<comment> \<open>\<open>re.sub(r"[ \t]+", " ", s)\<close>; the flag says that the previous character was a blank.\<close>
  "collapse_blanks prev [] = []"
| "collapse_blanks prev (c # cs) =
     (if c = CHR '' '' \<or> c = CHR 0x09
      then (if prev then collapse_blanks True cs else CHR '' '' # collapse_blanks True cs)
      else c # collapse_blanks False cs)"

fun clean :: "string \<Rightarrow> string" where
  \<comment> \<open>\<open>_clean\<close>: \<open>\r\n\<close> and then \<open>\r\<close> become \<open>\n\<close>.\<close>
  "clean [] = []"
| "clean (c # cs) =
     (if c = CHR 0x0D then
        (case cs of d # ds \<Rightarrow> if d = CHR 0x0A then CHR 0x0A # clean ds else CHR 0x0A # clean cs
         | [] \<Rightarrow> [CHR 0x0A])
      else c # clean cs)"

definition lower_char :: "char \<Rightarrow> char" where
  "lower_char c =
     (case map_of (zip ''ABCDEFGHIJKLMNOPQRSTUVWXYZ'' ''abcdefghijklmnopqrstuvwxyz'') c of
        Some l \<Rightarrow> l | None \<Rightarrow> c)"

definition lower :: "string \<Rightarrow> string" where
  "lower s = map lower_char s"

definition is_digits :: "string \<Rightarrow> bool" where
  \<comment> \<open>\<open>re.fullmatch(r"\d+", s)\<close>, and \<open>s.isdigit()\<close>.\<close>
  "is_digits s \<longleftrightarrow> s \<noteq> [] \<and> list_all is_digit s"

fun split_ws_from :: "string \<Rightarrow> string \<Rightarrow> string list" where
  \<comment> \<open>The loop behind \<open>s.split()\<close>; the first argument is the token being read.\<close>
  "split_ws_from cur [] = (if cur = [] then [] else [cur])"
| "split_ws_from cur (c # cs) =
     (if is_space c then (if cur = [] then split_ws_from [] cs else cur # split_ws_from [] cs)
      else split_ws_from (cur @ [c]) cs)"

definition split_ws :: "string \<Rightarrow> string list" where
  \<comment> \<open>\<open>s.split()\<close>: the maximal runs of characters that are not whitespace.\<close>
  "split_ws s = split_ws_from [] s"

fun remove3 :: "string \<Rightarrow> string \<Rightarrow> string" where
  \<comment> \<open>\<open>s.replace(p, "")\<close> for a literal \<open>p\<close> of three characters.\<close>
  "remove3 p (a # b # c # r) = (if [a, b, c] = p then remove3 p r else a # remove3 p (b # c # r))"
| "remove3 p s = s"

fun contains :: "string \<Rightarrow> string \<Rightarrow> bool" where
  \<comment> \<open>\<open>p in s\<close>.\<close>
  "contains p [] \<longleftrightarrow> p = []"
| "contains p (c # cs) \<longleftrightarrow> take (length p) (c # cs) = p \<or> contains p cs"

definition starts_with :: "string \<Rightarrow> string \<Rightarrow> bool" where
  "starts_with p s \<longleftrightarrow> take (length p) s = p"

definition digit_char :: "nat \<Rightarrow> char" where
  "digit_char n = ''0123456789'' ! n"

fun str_of_nat :: "nat \<Rightarrow> string" where
  "str_of_nat n = (if n < 10 then [digit_char n] else str_of_nat (n div 10) @ [digit_char (n mod 10)])"

declare str_of_nat.simps [simp del]

definition str_of_int :: "int \<Rightarrow> string" where
  \<comment> \<open>\<open>str(n)\<close> for an integer.\<close>
  "str_of_int n = (if n < 0 then CHR ''-'' # str_of_nat (nat (- n)) else str_of_nat (nat n))"

definition ends_with_space_zero :: "string \<Rightarrow> bool" where
  \<comment> \<open>\<open>re.search(r"\s0\s*$", s)\<close>: the last character that is not whitespace is a \<open>0\<close>
      and a whitespace character stands before it.\<close>
  "ends_with_space_zero s \<longleftrightarrow>
     (case dropWhile is_space (rev s) of
        z # w # _ \<Rightarrow> z = CHR ''0'' \<and> is_space w
      | _ \<Rightarrow> False)"


section \<open>Data model\<close>

record QsoRecord =
  date :: string
  time :: string
  band_mhz :: string
  mode :: string
  worked_call :: string
  sent_exch :: string
  rcvd_exch :: string
  pts :: int
  dup :: bool
  raw :: string

text \<open>
  The reason text of an entry is assembled from Japanese labels; the model keeps its
  structure: either the fixed zero-claim sentence, or the list of recorded discrepancies
  (label, claimed value, recomputed value) followed by the optional manual note.
\<close>

datatype figure = QSO_count | Raw_points | Multi | Total_score

datatype reason_text =
    Zero_claim_reason
  | Discrepancies "(figure \<times> int \<times> int) list" "string option"

text \<open>
  \<open>StationEntry\<close> with the fields that scoring, ranking and awards read or write. The
  display-only fields (operating place, address, comments, source name, raw text) are
  left out, and with them the place-name part of the manual override.
\<close>

record StationEntry =
  callsign :: string
  category :: string
  claimed_qso :: "int option"
  claimed_pts :: "int option"
  claimed_mult :: "int option"
  claimed_total :: "int option"
  qsos :: "QsoRecord list"
  recalced_qso :: int
  recalced_pts :: int
  recalced_mult :: int
  recalced_total :: int
  manual_enabled :: bool
  manual_qso :: "int option"
  manual_pts :: "int option"
  manual_mult :: "int option"
  manual_total :: "int option"
  manual_note :: string
  match :: bool
  reason :: reason_text
  is_checklog :: bool


definition QsoRecord_default :: QsoRecord where
  \<comment> \<open>The dataclass defaults of \<open>QsoRecord\<close>.\<close>
  "QsoRecord_default =
     \<lparr>date = [], time = [], band_mhz = [], mode = [], worked_call = [], sent_exch = [],
      rcvd_exch = [], pts = 0, dup = False, raw = []\<rparr>"

definition StationEntry_default :: StationEntry where
  \<comment> \<open>The dataclass defaults of \<open>StationEntry\<close>.\<close>
  "StationEntry_default =
     \<lparr>callsign = [], category = [],
      claimed_qso = None, claimed_pts = None, claimed_mult = None, claimed_total = None,
      qsos = [],
      recalced_qso = 0, recalced_pts = 0, recalced_mult = 0, recalced_total = 0,
      manual_enabled = False, manual_qso = None, manual_pts = None, manual_mult = None,
      manual_total = None, manual_note = [],
      match = True, reason = Discrepancies [] None, is_checklog = False\<rparr>"


section \<open>Token normalizers\<close>

definition canon_exchange :: "string \<Rightarrow> string" where
  \<comment> \<open>\<open>_canon_exchange\<close>. \<open>int(s)\<close> of a non-empty digit string is taken to succeed (the
      interpreter's optional cap on the length of converted numbers is not modelled).\<close>
  "canon_exchange exch =
     (let s = strip exch in
      if s = [] \<or> s = ''-'' then []
      else let d = filter is_digit s in
           if d = [] then [] else str_of_digits d)"

definition RST_PREFIXES :: "string list" where
  "RST_PREFIXES = [''59'', ''57'', ''55'', ''58'', ''56'']"

definition extract_exchange_from_token :: "string \<Rightarrow> string" where
  \<comment> \<open>The prefixes are five different strings of length 2, so at most one of them starts
      the token and the order of the loop does not matter.\<close>
  "extract_exchange_from_token tok =
     (let s = strip tok in
      if s = [] \<or> s = ''-'' then []
      else if s \<in> set RST_PREFIXES then []
      else if take 2 s \<in> set RST_PREFIXES \<and> length s > 2 then filter is_digit (drop 2 s)
      else filter is_digit s)"

definition parse_band_mhz :: "string \<Rightarrow> string" where
  "parse_band_mhz tok = strip (remove3 ''mhz'' (remove3 ''MHz'' (strip tok)))"

definition is_decimal :: "string \<Rightarrow> bool" where
  \<comment> \<open>\<open>re.fullmatch(r"\d+(\.\d+)?", s)\<close>.\<close>
  "is_decimal s \<longleftrightarrow>
     (let ip = takeWhile (\<lambda>c. c \<noteq> CHR ''.'') s; r = dropWhile (\<lambda>c. c \<noteq> CHR ''.'') s
      in is_digits ip \<and> (r = [] \<or> is_digits (tl r)))"

definition canon_band_token :: "string \<Rightarrow> string" where
  \<comment> \<open>\<open>_canon_band_token\<close>. The test on the double \<open>f = float(s)\<close> is modelled for whole
      numbers of at most 15 digits, written with an all-zero fraction or none: a double
      holds them exactly (they are below \<open>2^53\<close>), so \<open>f\<close> equals \<open>round(f)\<close> and the result
      is \<open>str(int(f))\<close>. For every other numeral the model returns the token, as the code
      does unless the numeral is within \<open>1e-9\<close> of a whole number or has more than 15
      digits before the point; such tokens are outside the model.\<close>
  "canon_band_token tok =
     (let s = strip (parse_band_mhz tok) in
      if s = [] then []
      else if is_decimal s then
        (let ip = takeWhile (\<lambda>c. c \<noteq> CHR ''.'') s; r = dropWhile (\<lambda>c. c \<noteq> CHR ''.'') s
         in if list_all (\<lambda>c. c = CHR ''0'') (tl r) \<and> length (str_of_digits ip) \<le> 15
            then str_of_digits ip else s)
      else s)"

definition is_hhmm :: "string \<Rightarrow> bool" where
  \<comment> \<open>\<open>re.fullmatch(r"\d{2}:\d{2}", s)\<close>.\<close>
  "is_hhmm s \<longleftrightarrow>
     length s = 5 \<and> is_digits (take 2 s) \<and> s ! 2 = CHR '':'' \<and> is_digits (drop 3 s)"

definition is_4digits :: "string \<Rightarrow> bool" where
  \<comment> \<open>\<open>re.fullmatch(r"\d{4}", s)\<close>.\<close>
  "is_4digits s \<longleftrightarrow> length s = 4 \<and> is_digits s"

definition parse_time :: "string \<Rightarrow> string" where
  "parse_time tok =
     (if tok = [] then []
      else let s = strip tok in
           if is_hhmm s then s
           else if is_4digits s then take 2 s @ '':'' @ drop 2 s
           else s)"

definition looks_date :: "string \<Rightarrow> bool" where
  \<comment> \<open>\<open>re.fullmatch(r"\d{4}[-/]\d{2}[-/]\d{2}", s.strip())\<close>.\<close>
  "looks_date x \<longleftrightarrow>
     (let s = strip x in
      length s = 10 \<and> is_digits (take 4 s) \<and> s ! 4 \<in> set ''-/'' \<and>
      is_digits (take 2 (drop 5 s)) \<and> s ! 7 \<in> set ''-/'' \<and> is_digits (drop 8 s))"

definition looks_time :: "string \<Rightarrow> bool" where
  "looks_time x \<longleftrightarrow> (let s = strip x in is_hhmm s \<or> is_4digits s)"

definition clean_callsign :: "string \<Rightarrow> string" where
  "clean_callsign call = (if call = [] then [] else upper (strip call))"

definition looks_callsign :: "string \<Rightarrow> bool" where
  "looks_callsign tok \<longleftrightarrow>
     (let s = upper (strip tok) in
      s \<noteq> [] \<and>
      list_all (\<lambda>c. c \<in> set ''ABCDEFGHIJKLMNOPQRSTUVWXYZ0123456789/'') s \<and>
      list_ex (\<lambda>c. c \<in> set ''ABCDEFGHIJKLMNOPQRSTUVWXYZ'') s)"


section \<open>Scoring\<close>

type_synonym dedup_key = "string \<times> string \<times> string"

definition qso_key :: "QsoRecord \<Rightarrow> dedup_key" where
  "qso_key q = (strip (band_mhz q), upper (strip (mode q)), upper (strip (worked_call q)))"

text \<open>
  The loop of \<open>mark_duplicates\<close>, with the set \<open>seen\<close> as explicit state: the result is
  the final set together with the updated records, in order.
\<close>

fun mark_duplicates_loop :: "dedup_key set \<Rightarrow> QsoRecord list \<Rightarrow> dedup_key set \<times> QsoRecord list" where
  "mark_duplicates_loop seen [] = (seen, [])"
| "mark_duplicates_loop seen (q # qs) =
     (let key = qso_key q in
      if key \<in> seen then
        (let (seen', out) = mark_duplicates_loop seen qs
         in (seen', q\<lparr>pts := 0, dup := True\<rparr> # out))
      else
        (let q' = (if pts q = 0 then q\<lparr>dup := True\<rparr> else q\<lparr>dup := False\<rparr>);
             (seen', out) = mark_duplicates_loop (insert key seen) qs
         in (seen', q' # out)))"

definition mark_duplicates :: "QsoRecord list \<Rightarrow> QsoRecord list" where
  "mark_duplicates qs = snd (mark_duplicates_loop {} qs)"

definition apply_manual_override :: "StationEntry \<Rightarrow> StationEntry" where
  "apply_manual_override e =
     (if \<not> manual_enabled e then e
      else
        let e1 = (case manual_qso e of None \<Rightarrow> e | Some v \<Rightarrow> e\<lparr>recalced_qso := v\<rparr>);
            e2 = (case manual_pts e1 of None \<Rightarrow> e1 | Some v \<Rightarrow> e1\<lparr>recalced_pts := v\<rparr>);
            e3 = (case manual_mult e2 of None \<Rightarrow> e2 | Some v \<Rightarrow> e2\<lparr>recalced_mult := v\<rparr>)
        in (case manual_total e3 of
              Some v \<Rightarrow> e3\<lparr>recalced_total := v\<rparr>
            | None \<Rightarrow> e3\<lparr>recalced_total := recalced_pts e3 * recalced_mult e3\<rparr>))"

definition valid_qsos :: "QsoRecord list \<Rightarrow> QsoRecord list" where
  "valid_qsos qs = filter (\<lambda>q. \<not> dup q \<and> pts q > 0) qs"

definition mult_step :: "QsoRecord \<Rightarrow> string set \<Rightarrow> string set" where
  "mult_step q s = (let ex = canon_exchange (rcvd_exch q) in if ex \<noteq> [] then insert ex s else s)"

definition recalc_scores :: "StationEntry \<Rightarrow> StationEntry" where
  \<comment> \<open>\<open>recalc_entry\<close> up to the call of the manual override. The records of the entry are
      the objects \<open>mark_duplicates\<close> updates, so the entry's list changes with them.\<close>
  "recalc_scores e =
     (let qs = mark_duplicates (qsos e);
          valid = valid_qsos qs;
          p = sum_list (map pts valid);
          mult_set = fold mult_step valid {};
          m = int (card mult_set)
      in e\<lparr>qsos := qs, recalced_qso := int (length valid), recalced_pts := p,
            recalced_mult := m, recalced_total := p * m\<rparr>)"

definition add_reason :: "figure \<Rightarrow> int option \<Rightarrow> int \<Rightarrow> (figure \<times> int \<times> int) list \<Rightarrow> (figure \<times> int \<times> int) list" where
  "add_reason label a b reasons =
     (case a of None \<Rightarrow> reasons
      | Some v \<Rightarrow> if v \<noteq> b then reasons @ [(label, v, b)] else reasons)"

definition compare_claims :: "StationEntry \<Rightarrow> StationEntry" where
  \<comment> \<open>The rest of \<open>recalc_entry\<close>: the zero-claim rule, then the four comparisons.\<close>
  "compare_claims e =
     (if claimed_total e = Some 0 then e\<lparr>match := True, reason := Zero_claim_reason\<rparr>
      else
        let r1 = add_reason QSO_count (claimed_qso e) (recalced_qso e) [];
            r2 = add_reason Raw_points (claimed_pts e) (recalced_pts e) r1;
            r3 = add_reason Multi (claimed_mult e) (recalced_mult e) r2;
            r4 = add_reason Total_score (claimed_total e) (recalced_total e) r3;
            note = (if manual_enabled e \<and> strip (manual_note e) \<noteq> [] then Some (manual_note e) else None)
        in e\<lparr>match := (r4 = []), reason := Discrepancies r4 note\<rparr>)"

definition recalc_entry :: "StationEntry \<Rightarrow> StationEntry" where
  "recalc_entry e = compare_claims (apply_manual_override (recalc_scores e))"


section \<open>The CTESTWIN line format\<close>

definition take_pts_from_tail :: "string list \<Rightarrow> string \<Rightarrow> int \<times> string list" where
  "take_pts_from_tail tokens raw_line =
     (if tokens = [] then (2, tokens)
      else
        let tail = strip (filter (\<lambda>c. c \<noteq> CHR '','') (last tokens)) in
        if is_digits tail then (int (nat_of_digits tail), butlast tokens)
        else if length tokens \<ge> 2 \<and> lower (last tokens) \<in> set [''dupe'', ''dup'']
                \<and> is_digits (strip (filter (\<lambda>c. c \<noteq> CHR '','') (last (butlast tokens))))
        then (int (nat_of_digits (strip (filter (\<lambda>c. c \<noteq> CHR '','') (last (butlast tokens))))),
              butlast (butlast tokens))
        else if ends_with_space_zero raw_line then (0, tokens)
        else (2, tokens))"

definition pick_exchanges :: "string list \<Rightarrow> string \<times> string" where
  \<comment> \<open>The sent and received exchange tokens of \<open>parse_logsheet_ctestwin\<close>, located by the
      positions of the signal reports among the tokens after the callsign.\<close>
  "pick_exchanges rest =
     (let rst_idxs = filter (\<lambda>i. rest ! i \<in> set RST_PREFIXES) [0 ..< length rest] in
      if length rst_idxs \<ge> 2 then
        (let i1 = rst_idxs ! 0; i2 = rst_idxs ! 1
         in (if i1 + 1 < length rest then rest ! (i1 + 1) else [],
             if i2 + 1 < length rest then rest ! (i2 + 1) else []))
      else if length rst_idxs = 1 then
        (let i = rst_idxs ! 0
         in (if i \<ge> 1 then rest ! (i - 1) else [],
             if i + 1 < length rest then rest ! (i + 1) else []))
      else
        (if length rest \<ge> 1 then rest ! 0 else [],
         if length rest \<ge> 2 then rest ! 1 else []))"

definition parse_ctestwin_line :: "string \<Rightarrow> QsoRecord option" where
  \<comment> \<open>One turn of the loop of \<open>parse_logsheet_ctestwin\<close>; \<open>None\<close> is \<open>continue\<close>.\<close>
  "parse_ctestwin_line raw_line =
     (let s = strip raw_line in
      if s = [] then None
      else if starts_with ''DATE'' s \<or> starts_with ''---'' s \<or> starts_with ''Date'' s then None
      else
        let parts = split_ws s in
        if length parts < 6 then None
        else if \<not> looks_date (parts ! 0) \<or> \<not> looks_time (parts ! 1) then None
        else
          let d = map (\<lambda>c. if c = CHR ''/'' then CHR ''-'' else c) (parts ! 0);
              tm = parse_time (parts ! 1);
              band = parse_band_mhz (parts ! 2);
              mode_tok = parts ! 3;
              md = (if is_digits mode_tok \<and> length parts \<ge> 6 \<and> looks_callsign (parts ! 4)
                    then ''AM'' else parts ! 3);
              call = clean_callsign (parts ! 4);
              (p, rest) = take_pts_from_tail (drop 5 parts) s;
              (sent, rcvd) = pick_exchanges rest;
              sent_exch = canon_exchange (extract_exchange_from_token sent);
              rcvd_exch = canon_exchange (extract_exchange_from_token rcvd);
              p = (if p \<le> 0
                   then (if ends_with_space_zero s \<or> contains ''dupe'' (lower s) \<or> contains ''dup'' (lower s)
                         then 0 else 2)
                   else p)
          in Some \<lparr>date = d, time = tm, band_mhz = band, mode = md, worked_call = call,
                   sent_exch = sent_exch, rcvd_exch = rcvd_exch, pts = p, dup = False,
                   raw = raw_line\<rparr>)"

definition parse_logsheet_ctestwin :: "string list \<Rightarrow> QsoRecord list" where
  "parse_logsheet_ctestwin lines = List.map_filter parse_ctestwin_line lines"

definition or_default :: "string \<Rightarrow> string \<Rightarrow> string" where
  \<comment> \<open>\<open>x or d\<close> for strings.\<close>
  "or_default x d = (if x = [] then d else x)"

definition qso_to_ctestwin_line :: "QsoRecord \<Rightarrow> string" where
  "qso_to_ctestwin_line q =
     (let d = strip (map (\<lambda>c. if c = CHR ''/'' then CHR ''-'' else c) (date q));
          tm = strip (parse_time (time q));
          band = or_default (canon_band_token (band_mhz q)) ''50'';
          md = upper (strip (or_default (mode q) ''AM''));
          call = clean_callsign (worked_call q);
          sent = or_default (canon_exchange (sent_exch q)) ''-'';
          rcvd = or_default (canon_exchange (rcvd_exch q)) ''-'';
          p = str_of_int (pts q)
      in d @ '' '' @ tm @ '' '' @ band @ '' '' @ md @ '' '' @ call @ '' 59 '' @ sent
         @ '' 59 '' @ rcvd @ '' '' @ p)"

definition qso_tuple :: "QsoRecord \<Rightarrow> string \<times> string \<times> string \<times> string \<times> string \<times> int" where
  "qso_tuple q = (worked_call q, band_mhz q, mode q, sent_exch q, rcvd_exch q, pts q)"

definition no_space :: "string \<Rightarrow> bool" where
  "no_space t \<longleftrightarrow> list_all (\<lambda>c. \<not> is_space c) t"

definition is_token :: "string \<Rightarrow> bool" where
  \<comment> \<open>A non-empty string without whitespace: what \<open>split()\<close> returns as one piece.\<close>
  "is_token t \<longleftrightarrow> t \<noteq> [] \<and> no_space t"

definition export_ready :: "QsoRecord \<Rightarrow> bool" where
  \<comment> \<open>A record whose fields are already in the form that the export writes: date and
      time well-formed; band, mode and callsign single tokens, the band unchanged by both
      band normalizers, mode and callsign in upper case, the mode not a number standing
      before a callsign; both exchanges canonical and not starting with a signal report;
      points not negative.\<close>
  "export_ready q \<longleftrightarrow>
     looks_date (date q) \<and> looks_time (time q) \<and>
     is_token (band_mhz q) \<and> parse_band_mhz (band_mhz q) = band_mhz q \<and>
     canon_band_token (band_mhz q) = band_mhz q \<and>
     is_token (mode q) \<and> upper (mode q) = mode q \<and>
     (is_digits (mode q) \<and> looks_callsign (worked_call q)) = False \<and>
     is_token (worked_call q) \<and> upper (worked_call q) = worked_call q \<and>
     canon_exchange (sent_exch q) = sent_exch q \<and> take 2 (sent_exch q) \<notin> set RST_PREFIXES \<and>
     canon_exchange (rcvd_exch q) = rcvd_exch q \<and> take 2 (rcvd_exch q) \<notin> set RST_PREFIXES \<and>
     0 \<le> pts q"


section \<open>Summary sheet\<close>

definition strip_tags_text :: "string \<Rightarrow> string" where
  "strip_tags_text x = strip (collapse_blanks False (strip x))"

definition find_tag :: "string \<Rightarrow> string \<Rightarrow> string option" where
  \<comment> \<open>\<open>_find_tag\<close>: the leftmost \<open><TAG>\<close> that has a \<open></TAG>\<close> after it, and the text up to
      the first such \<open></TAG>\<close>. If the first opening tag has no closing tag after it, no
      later one has.\<close>
  "find_tag text tag =
     (case find_ci (''<'' @ tag @ ''>'') text of
        None \<Rightarrow> None
      | Some (_, rest) \<Rightarrow>
          (case find_ci (''</'' @ tag @ ''>'') rest of
             None \<Rightarrow> None
           | Some (inner, _) \<Rightarrow> Some (strip_tags_text inner)))"

definition safe_int :: "string option \<Rightarrow> int \<Rightarrow> int" where
  \<comment> \<open>\<open>_safe_int\<close> on an optional string.\<close>
  "safe_int x dflt =
     (case x of
        None \<Rightarrow> dflt
      | Some t \<Rightarrow>
          let s = filter (\<lambda>c. c \<noteq> CHR '','') (strip t) in
          if s = [] \<or> s = ''-'' then dflt
          else (case py_int s of Some n \<Rightarrow> n | None \<Rightarrow> dflt))"

definition to_int :: "string \<Rightarrow> int option" where
  \<comment> \<open>The local \<open>_to_int\<close> of \<open>_parse_score_triplet\<close>.\<close>
  "to_int x =
     (let s = strip (filter (\<lambda>c. c \<noteq> CHR '','') x) in
      if s = [] \<or> s = ''-'' then None else py_int s)"

definition parse_score_triplet :: "string \<Rightarrow> int option \<times> int option \<times> int option" where
  "parse_score_triplet score_text =
     (if score_text = [] then (None, None, None)
      else
        let parts = map strip (split_on CHR '','' score_text) in
        if length parts < 3 then (None, None, None)
        else (to_int (parts ! 0), to_int (parts ! 1), to_int (parts ! 2)))"

text \<open>
  The search for \<open><SCORE\b[^>]*BAND\s*=\s*("|')?50MHz\1?[^>]*>(.*?)</SCORE>\<close> (and the
  same with \<open>TOTAL\<close>), ignoring case. No part of the pattern before the closing \<open>>\<close> of the
  opening tag can match a \<open>>\<close>, so the attributes are the text up to the first \<open>>\<close>; they
  must start at a word boundary and contain \<open>BAND\<close>, \<open>=\<close>, an optional quote and the band
  name, with optional whitespace around \<open>=\<close>. What follows the band name is unconstrained.
\<close>

definition band_attr_here :: "string \<Rightarrow> string \<Rightarrow> bool" where
  "band_attr_here band s \<longleftrightarrow>
     starts_with_ci ''BAND'' s \<and>
     (let r1 = dropWhile is_space (drop 4 s) in
      r1 \<noteq> [] \<and> hd r1 = CHR ''='' \<and>
      (let r2 = dropWhile is_space (tl r1);
           r3 = (if r2 \<noteq> [] \<and> (hd r2 = CHR 0x22 \<or> hd r2 = CHR 0x27) then tl r2 else r2)
       in starts_with_ci band r3))"

fun has_band_attr :: "string \<Rightarrow> string \<Rightarrow> bool" where
  "has_band_attr band [] \<longleftrightarrow> False"
| "has_band_attr band (c # cs) \<longleftrightarrow> band_attr_here band (c # cs) \<or> has_band_attr band cs"

definition score_match_here :: "string \<Rightarrow> string \<Rightarrow> string option" where
  "score_match_here band s =
     (if starts_with_ci ''<SCORE'' s then
        (let r = drop 6 s;
             attrs = takeWhile (\<lambda>c. c \<noteq> CHR ''>'') r;
             after = dropWhile (\<lambda>c. c \<noteq> CHR ''>'') r
         in if after = [] then None
            else if attrs \<noteq> [] \<and> is_word_char (hd attrs) then None
            else if \<not> has_band_attr band attrs then None
            else map_option fst (find_ci ''</SCORE>'' (tl after)))
      else None)"

fun score_search :: "string \<Rightarrow> string \<Rightarrow> string option" where
  "score_search band [] = None"
| "score_search band (c # cs) =
     (case score_match_here band (c # cs) of
        Some g \<Rightarrow> Some g
      | None \<Rightarrow> score_search band cs)"

record SummaryClaims =
  sd_claimed_qso :: "int option"
  sd_claimed_pts :: "int option"
  sd_claimed_mult :: "int option"
  sd_claimed_total :: "int option"

definition parse_summarysheet :: "string \<Rightarrow> SummaryClaims" where
  \<comment> \<open>The four claimed figures of the dictionary that \<open>parse_summarysheet\<close> returns. Its
      total is always an integer; it is kept optional here as the entry's field is.\<close>
  "parse_summarysheet summary_block =
     (let sb = clean summary_block;
          score_50 = map_option strip_tags_text (score_search ''50MHz'' sb);
          score_50 = (if score_50 = None \<or> score_50 = Some []
                      then (case score_search ''TOTAL'' sb of
                              Some g \<Rightarrow> Some (strip_tags_text g) | None \<Rightarrow> score_50)
                      else score_50);
          (qso, p, mult) = parse_score_triplet (case score_50 of Some t \<Rightarrow> t | None \<Rightarrow> [])
      in \<lparr>sd_claimed_qso = qso, sd_claimed_pts = p, sd_claimed_mult = mult,
          sd_claimed_total = Some (safe_int (find_tag sb ''TOTALSCORE'') 0)\<rparr>)"

definition entry_claims :: "string \<Rightarrow> StationEntry \<Rightarrow> StationEntry" where
  \<comment> \<open>What \<open>build_station_entry_from_text\<close> copies from a summary block into the entry's
      claimed figures.\<close>
  "entry_claims summary_block e =
     (let sd = parse_summarysheet summary_block
      in e\<lparr>claimed_qso := sd_claimed_qso sd, claimed_pts := sd_claimed_pts sd,
            claimed_mult := sd_claimed_mult sd, claimed_total := sd_claimed_total sd\<rparr>)"


section \<open>Ranking and awards\<close>

datatype py_error = ValueError

type_synonym rank_metrics = "int \<times> int \<times> int \<times> int"

definition entry_rank_metrics :: "StationEntry \<Rightarrow> rank_metrics" where
  "entry_rank_metrics e = (recalced_total e, recalced_pts e, recalced_mult e, recalced_qso e)"

definition sort_key_less :: "StationEntry \<Rightarrow> StationEntry \<Rightarrow> bool" where
  \<comment> \<open>Tuple order on the key \<open>(-total, -pts, -mult, -qso, callsign)\<close> of \<open>rank_entries\<close>.\<close>
  "sort_key_less a b \<longleftrightarrow>
     - recalced_total a < - recalced_total b \<or>
     (recalced_total a = recalced_total b \<and>
      (- recalced_pts a < - recalced_pts b \<or>
       (recalced_pts a = recalced_pts b \<and>
        (- recalced_mult a < - recalced_mult b \<or>
         (recalced_mult a = recalced_mult b \<and>
          (- recalced_qso a < - recalced_qso b \<or>
           (recalced_qso a = recalced_qso b \<and> str_less (callsign a) (callsign b))))))))"

fun insort_entry :: "StationEntry \<Rightarrow> StationEntry list \<Rightarrow> StationEntry list" where
  "insort_entry x [] = [x]"
| "insort_entry x (y # ys) =
     (if sort_key_less y x then y # insort_entry x ys else x # y # ys)"

definition sorted_entries :: "StationEntry list \<Rightarrow> StationEntry list" where
  \<comment> \<open>\<open>sorted(entries, key=...)\<close> as a stable insertion sort: an entry goes before the
      entries already placed (which came later in the input) whose key is not smaller.\<close>
  "sorted_entries es = foldr insort_entry es []"

fun rank_loop :: "nat \<Rightarrow> rank_metrics option \<Rightarrow> int \<Rightarrow> StationEntry list \<Rightarrow> (int \<times> StationEntry) list" where
  "rank_loop i prev_metrics prev_rank [] = []"
| "rank_loop i prev_metrics prev_rank (e # es) =
     (let metrics = entry_rank_metrics e;
          rank = (if prev_metrics = Some metrics then prev_rank else int i)
      in (rank, e) # rank_loop (Suc i) (Some metrics) rank es)"

definition rank_entries :: "StationEntry list \<Rightarrow> (int \<times> StationEntry) list" where
  "rank_entries entries =
     rank_loop 1 None 0 (sorted_entries entries)
     @ map (\<lambda>e. (0, e)) (filter is_checklog entries)"

definition top_n_with_ties :: "StationEntry list \<Rightarrow> int \<Rightarrow> (int \<times> StationEntry) list" where
  "top_n_with_ties entries n =
     (let ranked = rank_entries entries in
      if n \<le> 0 \<or> ranked = [] then []
      else if int (length ranked) \<le> n then ranked
      else
        let cutoff_metrics = entry_rank_metrics (snd (ranked ! (nat n - 1)))
        in take (nat n) ranked
           @ takeWhile (\<lambda>re. entry_rank_metrics (snd re) = cutoff_metrics) (drop (nat n) ranked))"

definition extract_call_area_digit_base :: "string \<Rightarrow> py_error + int option" where
  "extract_call_area_digit_base cs =
     (let parts = split_on CHR ''/'' cs in
      if length parts > 1 then
        (case py_int (parts ! 1) of None \<Rightarrow> Inl ValueError | Some a \<Rightarrow> Inr (Some a))
      else Inr None)"

fun dict_set :: "'k \<Rightarrow> 'v \<Rightarrow> ('k \<times> 'v) list \<Rightarrow> ('k \<times> 'v) list" where
  \<comment> \<open>\<open>d[k] = v\<close> on an insertion-ordered dictionary.\<close>
  "dict_set k v [] = [(k, v)]"
| "dict_set k v ((k', v') # r) = (if k = k' then (k, v) # r else (k', v') # dict_set k v r)"

fun area_winners_loop :: "(int \<times> StationEntry) list \<Rightarrow> StationEntry list \<Rightarrow> py_error + (int \<times> StationEntry) list" where
  "area_winners_loop area_winners [] = Inr area_winners"
| "area_winners_loop area_winners (e # es) =
     (case extract_call_area_digit_base (callsign e) of
        Inl err \<Rightarrow> Inl err
      | Inr None \<Rightarrow> area_winners_loop area_winners es
      | Inr (Some area) \<Rightarrow>
          (case map_of area_winners area of
             None \<Rightarrow> area_winners_loop (dict_set area e area_winners) es
           | Some w \<Rightarrow>
               if recalced_total e > recalced_total w
               then area_winners_loop (dict_set area e area_winners) es
               else area_winners_loop area_winners es))"

definition build_award_lists ::
  "StationEntry list \<Rightarrow> py_error + ((string \<times> int \<times> StationEntry) list \<times> (int \<times> int \<times> StationEntry) list)" where
  \<comment> \<open>The categories of \<open>in_entries\<close> are among the four of \<open>in_area_cats\<close>, so the sorted
      set \<open>cats\<close> is the sublist of \<open>1F, 1P, 1Q, SWL\<close> (their order as strings) that occurs.\<close>
  "build_award_lists entries =
     (let valid_entries = filter (\<lambda>e. \<not> is_checklog e) entries;
          in_area_cats = [''1F'', ''1P'', ''1Q'', ''SWL''];
          in_entries = filter (\<lambda>e. strip (category e) \<in> set in_area_cats) valid_entries;
          out_entries = filter (\<lambda>e. strip (category e) = ''1X'') valid_entries;
          cats = filter (\<lambda>c. c \<in> (\<lambda>e. strip (category e)) ` set in_entries) in_area_cats;
          rows_in = concat (map (\<lambda>cat.
                      map (\<lambda>(rank, e). (cat, rank, e))
                        (top_n_with_ties (filter (\<lambda>e. strip (category e) = cat) in_entries) 3))
                      cats)
      in case area_winners_loop [] out_entries of
           Inl err \<Rightarrow> Inl err
         | Inr area_winners \<Rightarrow> Inr (rows_in, map (\<lambda>(area, e). (area, 1, e)) area_winners))"


section \<open>Sample contacts and entries\<close>

definition contact :: "string \<Rightarrow> string \<Rightarrow> int \<Rightarrow> QsoRecord" where
  \<comment> \<open>A 50 MHz AM contact with the given station, received exchange and points.\<close>
  "contact call rcvd p =
     QsoRecord_default\<lparr>date := ''2025-05-05'', time := ''10:00'', band_mhz := ''50'',
       mode := ''AM'', worked_call := call, sent_exch := ''5'', rcvd_exch := rcvd, pts := p\<rparr>"

definition sample_log :: "QsoRecord list" where
  "sample_log =
     [contact ''JA1ABC'' ''12'' 2, contact ''JA1XYZ'' ''12'' 2,
      contact ''JA1ABC'' ''13'' 2, contact ''JR1AAA'' ''007'' 2,
      contact ''JH1BBB'' ''-'' 2, contact ''JK1CCC'' ''20'' 0]"

definition sample_entry :: StationEntry where
  "sample_entry = StationEntry_default\<lparr>callsign := ''JP1LRT'', category := ''1F'', qsos := sample_log\<rparr>"


definition scored :: "string \<Rightarrow> string \<Rightarrow> int \<Rightarrow> int \<Rightarrow> bool \<Rightarrow> StationEntry" where
  \<comment> \<open>A scored entry: callsign, category, points and multiplier (two points a contact),
      checklog flag.\<close>
  "scored cs cat p m chk =
     StationEntry_default\<lparr>callsign := cs, category := cat, recalced_qso := p div 2,
       recalced_pts := p, recalced_mult := m, recalced_total := p * m, is_checklog := chk\<rparr>"


definition summary_with_scores :: string where
  "summary_with_scores =
     ''<SUMMARYSHEET VERSION=R2.0><CALLSIGN>JA1ABC</CALLSIGN>'' @
     ''<SCORE BAND=50MHz>4,8,2</SCORE><TOTALSCORE>16</TOTALSCORE></SUMMARYSHEET>''"

definition summary_without_scores :: string where
  "summary_without_scores =
     ''<SUMMARYSHEET VERSION=R2.0><CALLSIGN>JA1ABC</CALLSIGN></SUMMARYSHEET>''"


section \<open>The zero-claim rule\<close>

text \<open>
  C1. An entry whose claimed total is present and equal to zero is marked as matching,
  with the fixed zero-claim reason, whatever the other claimed figures, the contacts and
  the manual override are.
\<close>

theorem zero_claim_always_matches:
  "claimed_total e = Some 0 \<Longrightarrow>
     match (recalc_entry e) = True \<and> reason (recalc_entry e) = Zero_claim_reason"
  by (simp add: recalc_entry_def compare_claims_def apply_manual_override_def
      recalc_scores_def Let_def split: option.splits)

theorem zero_claim_always_matches_witness:
  "claimed_total (sample_entry\<lparr>claimed_qso := Some 99, claimed_total := Some 0\<rparr>) = Some 0
   \<and> match (recalc_entry (sample_entry\<lparr>claimed_qso := Some 99, claimed_total := Some 0\<rparr>)) = True
   \<and> reason (recalc_entry (sample_entry\<lparr>claimed_qso := Some 99, claimed_total := Some 0\<rparr>))
       = Zero_claim_reason"
  using zero_claim_always_matches [of "sample_entry\<lparr>claimed_qso := Some 99, claimed_total := Some 0\<rparr>"]
  by simp


section \<open>The deduplication pass\<close>

lemma loop_seen: "fst (mark_duplicates_loop seen qs) = seen \<union> qso_key ` set qs"
  by (induction qs arbitrary: seen) (auto simp: Let_def case_prod_beta)

lemma loop_length: "length (snd (mark_duplicates_loop seen qs)) = length qs"
  by (induction qs arbitrary: seen) (auto simp: Let_def case_prod_beta)

lemma loop_nth:
  "i < length qs \<Longrightarrow>
   snd (mark_duplicates_loop seen qs) ! i =
     (if qso_key (qs ! i) \<in> seen \<union> qso_key ` set (take i qs)
      then (qs ! i)\<lparr>pts := 0, dup := True\<rparr>
      else (qs ! i)\<lparr>dup := (pts (qs ! i) = 0)\<rparr>)"
proof (induction qs arbitrary: seen i)
  case Nil
  then show ?case by simp
next
  case (Cons q qs)
  show ?case
  proof (cases i)
    case 0
    then show ?thesis by (auto simp: Let_def case_prod_beta)
  next
    case (Suc j)
    with Cons.prems have j: "j < length qs" by simp
    show ?thesis
    proof (cases "qso_key q \<in> seen")
      case True
      then have "insert (qso_key q) seen = seen" by auto
      with True Suc Cons.IH [OF j, of seen] show ?thesis
        by (simp add: Let_def case_prod_beta)
    next
      case False
      with Suc Cons.IH [OF j, of "insert (qso_key q) seen"] show ?thesis
        by (simp add: Let_def case_prod_beta)
    qed
  qed
qed

lemma loop_idem:
  "snd (mark_duplicates_loop seen (snd (mark_duplicates_loop seen qs)))
     = snd (mark_duplicates_loop seen qs)"
  by (induction qs arbitrary: seen) (auto simp: Let_def qso_key_def case_prod_beta)

lemma loop_dup_iff:
  "q \<in> set (snd (mark_duplicates_loop seen qs)) \<Longrightarrow> dup q = (pts q = 0)"
  by (induction qs arbitrary: seen) (auto simp: Let_def case_prod_beta split: if_splits)

lemma sample_log_marked:
  "mark_duplicates sample_log =
     [contact ''JA1ABC'' ''12'' 2, contact ''JA1XYZ'' ''12'' 2,
      (contact ''JA1ABC'' ''13'' 2)\<lparr>pts := 0, dup := True\<rparr>, contact ''JR1AAA'' ''007'' 2,
      contact ''JH1BBB'' ''-'' 2, (contact ''JK1CCC'' ''20'' 0)\<lparr>dup := True\<rparr>]"
  by (simp add: mark_duplicates_def sample_log_def contact_def QsoRecord_default_def qso_key_def
      strip_def lstrip_def rstrip_def is_space_def upper_def upper_char_def Let_def)

text \<open>
  C3, as the code has it. The pass keeps the order and the number of contacts. A contact
  whose key occurs at an earlier contact is marked duplicate and its points become zero;
  any other contact keeps its points and is marked duplicate exactly when they are zero.
  The key of every contact ends up in the set of seen keys: a first occurrence records
  its key whether it is marked duplicate (zero points) or not, so "occurs earlier" ranges
  over all earlier contacts.
\<close>

theorem mark_duplicates_by_earlier_key:
  "fst (mark_duplicates_loop {} qs) = qso_key ` set qs
   \<and> length (mark_duplicates qs) = length qs
   \<and> (\<forall>i < length qs.
        mark_duplicates qs ! i =
          (if qso_key (qs ! i) \<in> qso_key ` set (take i qs)
           then (qs ! i)\<lparr>pts := 0, dup := True\<rparr>
           else (qs ! i)\<lparr>dup := (pts (qs ! i) = 0)\<rparr>))"
  by (simp add: mark_duplicates_def loop_seen loop_length loop_nth)

theorem mark_duplicates_by_earlier_key_witness:
  "(2::nat) < length sample_log
   \<and> qso_key (sample_log ! 2) \<in> qso_key ` set (take 2 sample_log)
   \<and> mark_duplicates sample_log ! 2 = (sample_log ! 2)\<lparr>pts := 0, dup := True\<rparr>"
proof -
  have len: "(2::nat) < length sample_log"
    by (simp add: sample_log_def)
  have tk: "take 2 sample_log = [contact ''JA1ABC'' ''12'' 2, contact ''JA1XYZ'' ''12'' 2]"
    by (simp add: sample_log_def)
  have k: "qso_key (sample_log ! 2) = qso_key (contact ''JA1ABC'' ''12'' 2)"
    by (simp add: sample_log_def qso_key_def contact_def)
  have mem: "qso_key (sample_log ! 2) \<in> qso_key ` set (take 2 sample_log)"
    unfolding tk k by simp
  from mark_duplicates_by_earlier_key [of sample_log] len
  have "mark_duplicates sample_log ! 2 =
          (if qso_key (sample_log ! 2) \<in> qso_key ` set (take 2 sample_log)
           then (sample_log ! 2)\<lparr>pts := 0, dup := True\<rparr>
           else (sample_log ! 2)\<lparr>dup := (pts (sample_log ! 2) = 0)\<rparr>)"
    by blast
  with mem len show ?thesis by simp
qed

text \<open>
  C3, as the claim has it, fails: a first contact with zero points is marked duplicate
  and its key is recorded as seen all the same.
\<close>

theorem zero_point_contact_key_is_recorded:
  "dup (hd (snd (mark_duplicates_loop {} [contact ''JA1ABC'' ''12'' 0])))
   \<and> qso_key (contact ''JA1ABC'' ''12'' 0)
       \<in> fst (mark_duplicates_loop {} [contact ''JA1ABC'' ''12'' 0])"
  by (simp add: Let_def contact_def QsoRecord_default_def)

text \<open>
  C5. A second run of the pass changes nothing: the list it returns is the list the
  first run returned, duplicate flags and points included.
\<close>

theorem mark_duplicates_idempotent:
  "mark_duplicates (mark_duplicates qs) = mark_duplicates qs"
  by (simp add: mark_duplicates_def loop_idem)

text \<open>
  C10. After the pass a contact is flagged duplicate exactly when its points are zero, so
  the filter for valid contacts selects the contacts with positive points.
\<close>

theorem dup_iff_zero_points:
  assumes "\<forall>q \<in> set qs. 0 \<le> pts q"
  shows "(\<forall>q \<in> set (mark_duplicates qs). dup q = (pts q = 0))
         \<and> valid_qsos (mark_duplicates qs) = filter (\<lambda>q. pts q > 0) (mark_duplicates qs)"
proof -
  have flag: "\<forall>q \<in> set (mark_duplicates qs). dup q = (pts q = 0)"
    by (simp add: mark_duplicates_def loop_dup_iff)
  then have "\<forall>q \<in> set (mark_duplicates qs). (\<not> dup q \<and> pts q > 0) = (pts q > 0)"
    by auto
  then have "valid_qsos (mark_duplicates qs) = filter (\<lambda>q. pts q > 0) (mark_duplicates qs)"
    unfolding valid_qsos_def by (intro filter_cong) auto
  with flag show ?thesis by simp
qed

theorem dup_iff_zero_points_witness:
  "map pts sample_log = [2, 2, 2, 2, 2, 0]
   \<and> map (\<lambda>q. (dup q, pts q)) (mark_duplicates sample_log)
       = [(False, 2), (False, 2), (True, 0), (False, 2), (False, 2), (True, 0)]
   \<and> valid_qsos (mark_duplicates sample_log) = filter (\<lambda>q. pts q > 0) (mark_duplicates sample_log)"
proof -
  have h: "\<forall>q \<in> set sample_log. 0 \<le> pts q"
    by (simp add: sample_log_def contact_def)
  have p: "map pts sample_log = [2, 2, 2, 2, 2, 0]"
    by (simp add: sample_log_def contact_def)
  have m: "map (\<lambda>q. (dup q, pts q)) (mark_duplicates sample_log)
       = [(False, 2), (False, 2), (True, 0), (False, 2), (False, 2), (True, 0)]"
    by (simp add: sample_log_marked contact_def QsoRecord_default_def)
  from dup_iff_zero_points [OF h] p m show ?thesis by simp
qed


section \<open>Recomputed figures\<close>

lemma fold_mult_step:
  "fold mult_step qs S = S \<union> ((\<lambda>q. canon_exchange (rcvd_exch q)) ` set qs - {[]})"
  by (induction qs arbitrary: S) (auto simp: mult_step_def Let_def)

lemma override_total:
  "recalced_total (apply_manual_override e) =
     (if manual_enabled e then
        (case manual_total e of Some v \<Rightarrow> v
         | None \<Rightarrow> recalced_pts (apply_manual_override e) * recalced_mult (apply_manual_override e))
      else recalced_total e)"
  by (simp add: apply_manual_override_def Let_def split: option.splits)

lemma override_pts:
  "recalced_pts (apply_manual_override e) =
     (if manual_enabled e then (case manual_pts e of Some v \<Rightarrow> v | None \<Rightarrow> recalced_pts e)
      else recalced_pts e)"
  by (simp add: apply_manual_override_def Let_def split: option.splits)

lemma override_mult:
  "recalced_mult (apply_manual_override e) =
     (if manual_enabled e then (case manual_mult e of Some v \<Rightarrow> v | None \<Rightarrow> recalced_mult e)
      else recalced_mult e)"
  by (simp add: apply_manual_override_def Let_def split: option.splits)

lemma compare_keeps_figures:
  "recalced_total (compare_claims e) = recalced_total e"
  "recalced_pts (compare_claims e) = recalced_pts e"
  "recalced_mult (compare_claims e) = recalced_mult e"
  by (simp_all add: compare_claims_def Let_def)

lemma scores_fields:
  "manual_enabled (recalc_scores e) = manual_enabled e"
  "manual_total (recalc_scores e) = manual_total e"
  "manual_pts (recalc_scores e) = manual_pts e"
  "manual_mult (recalc_scores e) = manual_mult e"
  "recalced_total (recalc_scores e) = recalced_pts (recalc_scores e) * recalced_mult (recalc_scores e)"
  by (simp_all add: recalc_scores_def Let_def)

text \<open>
  C2. After \<open>recalc_entry\<close> the recomputed total is the product of the recomputed points
  and the recomputed multiplier, unless the manual override is enabled and supplies a
  total. With the override enabled and no total supplied, the points and the multiplier
  in that product are the override's values where it supplies them and the computed ones
  where it does not.
\<close>

theorem total_is_points_times_mult:
  "(\<not> (manual_enabled e \<and> manual_total e \<noteq> None) \<longrightarrow>
      recalced_total (recalc_entry e)
        = recalced_pts (recalc_entry e) * recalced_mult (recalc_entry e))
   \<and> (manual_enabled e \<and> manual_total e = None \<longrightarrow>
      recalced_total (recalc_entry e)
        = (case manual_pts e of Some v \<Rightarrow> v | None \<Rightarrow> recalced_pts (recalc_scores e))
          * (case manual_mult e of Some v \<Rightarrow> v | None \<Rightarrow> recalced_mult (recalc_scores e)))"
  by (auto simp: recalc_entry_def compare_keeps_figures override_total override_pts
      override_mult scores_fields split: option.splits)

theorem total_is_points_times_mult_witness:
  "manual_enabled (sample_entry\<lparr>manual_enabled := True, manual_pts := Some 7\<rparr>)
   \<and> manual_total (sample_entry\<lparr>manual_enabled := True, manual_pts := Some 7\<rparr>) = None
   \<and> recalced_total (recalc_entry (sample_entry\<lparr>manual_enabled := True, manual_pts := Some 7\<rparr>))
       = 7 * recalced_mult (recalc_scores (sample_entry\<lparr>manual_enabled := True, manual_pts := Some 7\<rparr>))"
  using total_is_points_times_mult [of "sample_entry\<lparr>manual_enabled := True, manual_pts := Some 7\<rparr>"]
  by (simp add: sample_entry_def StationEntry_default_def)

text \<open>
  C4. The multiplier that \<open>recalc_entry\<close> computes is the number of distinct non-empty
  canonical received exchanges among the valid contacts, those that after the
  deduplication pass are not duplicates and have positive points. It is the entry's
  recomputed multiplier unless the manual override is enabled and supplies one.
\<close>

theorem mult_counts_distinct_exchanges:
  "recalced_mult (recalc_scores e) =
     int (card ({canon_exchange (rcvd_exch q) | q.
                   q \<in> set (mark_duplicates (qsos e)) \<and> \<not> dup q \<and> pts q > 0} - {[]}))
   \<and> (\<not> (manual_enabled e \<and> manual_mult e \<noteq> None) \<longrightarrow>
        recalced_mult (recalc_entry e) = recalced_mult (recalc_scores e))"
proof -
  have "{canon_exchange (rcvd_exch q) | q. q \<in> set (mark_duplicates (qsos e)) \<and> \<not> dup q \<and> pts q > 0}
          = (\<lambda>q. canon_exchange (rcvd_exch q)) ` set (valid_qsos (mark_duplicates (qsos e)))"
    by (auto simp: valid_qsos_def)
  then have "recalced_mult (recalc_scores e) =
     int (card ({canon_exchange (rcvd_exch q) | q.
                   q \<in> set (mark_duplicates (qsos e)) \<and> \<not> dup q \<and> pts q > 0} - {[]}))"
    by (simp add: recalc_scores_def Let_def fold_mult_step)
  moreover have "\<not> (manual_enabled e \<and> manual_mult e \<noteq> None) \<longrightarrow>
        recalced_mult (recalc_entry e) = recalced_mult (recalc_scores e)"
    by (auto simp: recalc_entry_def compare_keeps_figures override_mult scores_fields)
  ultimately show ?thesis by simp
qed


lemma sample_entry_mult: "recalced_mult (recalc_scores sample_entry) = 2"
  by (simp add: recalc_scores_def sample_entry_def StationEntry_default_def sample_log_marked
      valid_qsos_def contact_def QsoRecord_default_def mult_step_def canon_exchange_def strip_def
      lstrip_def rstrip_def is_space_def is_digit_def str_of_digits_def Let_def)

theorem mult_counts_distinct_exchanges_witness:
  "\<not> (manual_enabled sample_entry \<and> manual_mult sample_entry \<noteq> None)
   \<and> recalced_mult (recalc_entry sample_entry) = 2"
  using mult_counts_distinct_exchanges [of sample_entry]
  by (simp add: sample_entry_mult) (simp add: sample_entry_def StationEntry_default_def)



section \<open>Ranking with checklog entries\<close>

text \<open>
  C6 fails on the code. \<open>rank_entries\<close> sorts and ranks every entry it is given, checklog
  entries included, and then appends the checklog entries once more with rank 0. With a
  checklog entry that has the best score, that entry takes rank 1, the only competitor is
  pushed to rank 2, and the checklog entry is listed twice.
\<close>

theorem rank_entries_ranks_checklog_entry:
  "rank_entries [scored ''JP1LRT'' ''1F'' 100 10 True, scored ''JA1ABC'' ''1F'' 50 5 False]
     = [(1, scored ''JP1LRT'' ''1F'' 100 10 True),
        (2, scored ''JA1ABC'' ''1F'' 50 5 False),
        (0, scored ''JP1LRT'' ''1F'' 100 10 True)]"
  by (simp add: rank_entries_def sorted_entries_def sort_key_less_def entry_rank_metrics_def
      scored_def StationEntry_default_def Let_def)


section \<open>Area codes\<close>

text \<open>
  C8 fails on the code. For a callsign with a slash, \<open>extract_call_area_digit_base\<close>
  converts whatever follows the first slash with \<open>int\<close>; a portable suffix such as \<open>/P\<close>
  raises \<open>ValueError\<close>, and \<open>build_award_lists\<close> passes the exception on instead of
  leaving the entry out of the area groups.
\<close>

theorem area_of_portable_callsign_raises:
  "extract_call_area_digit_base ''JA1ABC/P'' = Inl ValueError
   \<and> extract_call_area_digit_base ''JA1ABC/2'' = Inr (Some 2)
   \<and> build_award_lists [scored ''JA1ABC/2'' ''1X'' 50 5 False, scored ''JA1XYZ/P'' ''1X'' 40 4 False]
       = Inl ValueError"
  by (simp add: extract_call_area_digit_base_def build_award_lists_def py_int_def
      int_literal_body_def strip_def lstrip_def rstrip_def is_space_def is_digit_def
      nat_of_digits_def digit_val_def scored_def StationEntry_default_def Let_def)



section \<open>Claimed figures\<close>

lemma add_reason_empty:
  "add_reason label a b rs = [] \<longleftrightarrow> rs = [] \<and> (a = None \<or> a = Some b)"
  by (auto simp: add_reason_def split: option.splits)

lemma claims_kept:
  "claimed_qso (apply_manual_override (recalc_scores e)) = claimed_qso e"
  "claimed_pts (apply_manual_override (recalc_scores e)) = claimed_pts e"
  "claimed_mult (apply_manual_override (recalc_scores e)) = claimed_mult e"
  "claimed_total (apply_manual_override (recalc_scores e)) = claimed_total e"
  by (simp_all add: apply_manual_override_def recalc_scores_def Let_def split: option.splits)

lemma match_compare_claims:
  "match (compare_claims e) \<longleftrightarrow>
     claimed_total e = Some 0 \<or>
     ((claimed_qso e = None \<or> claimed_qso e = Some (recalced_qso e)) \<and>
      (claimed_pts e = None \<or> claimed_pts e = Some (recalced_pts e)) \<and>
      (claimed_mult e = None \<or> claimed_mult e = Some (recalced_mult e)) \<and>
      (claimed_total e = None \<or> claimed_total e = Some (recalced_total e)))"
  by (auto simp: compare_claims_def Let_def add_reason_empty)

lemma safe_int_unparsable:
  "(\<forall>t. x = Some t \<longrightarrow> py_int (filter (\<lambda>c. c \<noteq> CHR '','') (strip t)) = None)
     \<Longrightarrow> safe_int x d = d"
  by (auto simp: safe_int_def Let_def split: option.splits)

lemma summary_total:
  "sd_claimed_total (parse_summarysheet sb) = Some (safe_int (find_tag (clean sb) ''TOTALSCORE'') 0)"
  by (simp add: parse_summarysheet_def Let_def case_prod_beta)

text \<open>
  C7, as the code has it. After summary parsing the claimed total is always present: a
  summary whose \<open>TOTALSCORE\<close> is missing or does not parse yields the total 0, and the
  entry built from it matches by the zero-claim rule. The claimed QSO count, points and
  multiplier are absent when the summary has no \<open>SCORE\<close> field for the band. An absent
  claimed figure adds no discrepancy, whatever the recomputed figure is: the entry
  matches exactly when its claimed total is zero or every claimed figure that is present
  equals the recomputed one.
\<close>

theorem claimed_figures_after_summary_parsing:
  "sd_claimed_total (parse_summarysheet sb) \<noteq> None
   \<and> ((\<forall>t. find_tag (clean sb) ''TOTALSCORE'' = Some t \<longrightarrow>
           py_int (filter (\<lambda>c. c \<noteq> CHR '','') (strip t)) = None) \<longrightarrow>
        sd_claimed_total (parse_summarysheet sb) = Some 0
        \<and> match (recalc_entry (entry_claims sb e0)))
   \<and> (score_search ''50MHz'' (clean sb) = None \<and> score_search ''TOTAL'' (clean sb) = None \<longrightarrow>
        sd_claimed_qso (parse_summarysheet sb) = None
        \<and> sd_claimed_pts (parse_summarysheet sb) = None
        \<and> sd_claimed_mult (parse_summarysheet sb) = None)
   \<and> add_reason label None b rs = rs
   \<and> (match (recalc_entry e) \<longleftrightarrow>
        claimed_total e = Some 0 \<or>
        ((claimed_qso e = None
            \<or> claimed_qso e = Some (recalced_qso (apply_manual_override (recalc_scores e)))) \<and>
         (claimed_pts e = None
            \<or> claimed_pts e = Some (recalced_pts (apply_manual_override (recalc_scores e)))) \<and>
         (claimed_mult e = None
            \<or> claimed_mult e = Some (recalced_mult (apply_manual_override (recalc_scores e)))) \<and>
         (claimed_total e = None
            \<or> claimed_total e = Some (recalced_total (apply_manual_override (recalc_scores e))))))"
proof -
  have present: "sd_claimed_total (parse_summarysheet sb) \<noteq> None"
    by (simp add: summary_total)
  have zero: "sd_claimed_total (parse_summarysheet sb) = Some 0
        \<and> match (recalc_entry (entry_claims sb e0))"
    if "\<forall>t. find_tag (clean sb) ''TOTALSCORE'' = Some t \<longrightarrow>
           py_int (filter (\<lambda>c. c \<noteq> CHR '','') (strip t)) = None"
  proof -
    from that have z: "sd_claimed_total (parse_summarysheet sb) = Some 0"
      by (simp add: summary_total safe_int_unparsable)
    then have "claimed_total (entry_claims sb e0) = Some 0"
      by (simp add: entry_claims_def Let_def)
    then have "match (recalc_entry (entry_claims sb e0))"
      by (simp add: recalc_entry_def match_compare_claims claims_kept)
    with z show ?thesis by simp
  qed
  have triple: "sd_claimed_qso (parse_summarysheet sb) = None
        \<and> sd_claimed_pts (parse_summarysheet sb) = None
        \<and> sd_claimed_mult (parse_summarysheet sb) = None"
    if "score_search ''50MHz'' (clean sb) = None \<and> score_search ''TOTAL'' (clean sb) = None"
    using that by (simp add: parse_summarysheet_def Let_def parse_score_triplet_def)
  have none: "add_reason label None b rs = rs"
    by (simp add: add_reason_def)
  have verdict: "match (recalc_entry e) \<longleftrightarrow>
        claimed_total e = Some 0 \<or>
        ((claimed_qso e = None
            \<or> claimed_qso e = Some (recalced_qso (apply_manual_override (recalc_scores e)))) \<and>
         (claimed_pts e = None
            \<or> claimed_pts e = Some (recalced_pts (apply_manual_override (recalc_scores e)))) \<and>
         (claimed_mult e = None
            \<or> claimed_mult e = Some (recalced_mult (apply_manual_override (recalc_scores e)))) \<and>
         (claimed_total e = None
            \<or> claimed_total e = Some (recalced_total (apply_manual_override (recalc_scores e)))))"
    by (simp add: recalc_entry_def match_compare_claims claims_kept)
  from present zero triple none verdict show ?thesis by blast
qed

lemma summary_without_scores_clean:
  "clean summary_without_scores = summary_without_scores"
  unfolding summary_without_scores_def by code_simp

lemma summary_without_scores_searches:
  "find_tag summary_without_scores ''TOTALSCORE'' = None"
  "score_search ''50MHz'' summary_without_scores = None"
  "score_search ''TOTAL'' summary_without_scores = None"
  unfolding summary_without_scores_def by code_simp+

theorem claimed_figures_after_summary_parsing_witness:
  "find_tag (clean summary_without_scores) ''TOTALSCORE'' = None
   \<and> score_search ''50MHz'' (clean summary_without_scores) = None
   \<and> score_search ''TOTAL'' (clean summary_without_scores) = None
   \<and> parse_summarysheet summary_without_scores
       = \<lparr>sd_claimed_qso = None, sd_claimed_pts = None, sd_claimed_mult = None,
          sd_claimed_total = Some 0\<rparr>
   \<and> match (recalc_entry (entry_claims summary_without_scores sample_entry))"
  using claimed_figures_after_summary_parsing
          [of summary_without_scores sample_entry QSO_count 0 "[]" sample_entry]
  by (simp add: summary_without_scores_clean summary_without_scores_searches)

text \<open>
  C7, as the claim has it, fails: a summary sheet without a \<open>TOTALSCORE\<close> field yields
  the claimed total 0, not an absent one.
\<close>

theorem missing_totalscore_is_zero:
  "sd_claimed_total (parse_summarysheet
      (''<SUMMARYSHEET VERSION=R2.0><CALLSIGN>JA1ABC</CALLSIGN>'' @
       ''<SCORE BAND=50MHz>4,8,2</SCORE></SUMMARYSHEET>'')) = Some 0"
proof -
  have c: "clean (''<SUMMARYSHEET VERSION=R2.0><CALLSIGN>JA1ABC</CALLSIGN>'' @
       ''<SCORE BAND=50MHz>4,8,2</SCORE></SUMMARYSHEET>'')
       = ''<SUMMARYSHEET VERSION=R2.0><CALLSIGN>JA1ABC</CALLSIGN><SCORE BAND=50MHz>4,8,2</SCORE></SUMMARYSHEET>''"
    by code_simp
  have f: "find_tag ''<SUMMARYSHEET VERSION=R2.0><CALLSIGN>JA1ABC</CALLSIGN><SCORE BAND=50MHz>4,8,2</SCORE></SUMMARYSHEET>'' ''TOTALSCORE'' = None"
    by code_simp
  show ?thesis
    by (simp only: summary_total c f) (simp add: safe_int_def)
qed



section \<open>Export and re-import of a log\<close>

lemma digit_not_space: "is_digit c \<Longrightarrow> \<not> is_space c"
  by (auto simp: is_digit_def is_space_def)

lemma strip_no_space_ends:
  assumes "s \<noteq> []" "\<not> is_space (hd s)" "\<not> is_space (last s)"
  shows "strip s = s"
proof -
  from assms have l: "dropWhile is_space s = s"
    by (cases s) auto
  from assms have "rev s \<noteq> []" "\<not> is_space (hd (rev s))"
    by (simp_all add: hd_rev)
  then have "dropWhile is_space (rev s) = rev s"
    by (cases "rev s") auto
  with l show ?thesis
    by (simp add: strip_def lstrip_def rstrip_def)
qed

lemma strip_token: "is_token t \<Longrightarrow> strip t = t"
  by (rule strip_no_space_ends) (auto simp: is_token_def no_space_def list_all_iff)

lemma strip_empty: "strip [] = []"
  by (simp add: strip_def lstrip_def rstrip_def)

lemma split_ws_from_token:
  "no_space t \<Longrightarrow> split_ws_from cur (t @ rest) = split_ws_from (cur @ t) rest"
  by (induction t arbitrary: cur) (auto simp: no_space_def)

lemma split_ws_token_sp:
  assumes "is_token t"
  shows "split_ws_from [] (t @ CHR '' '' # rest) = t # split_ws_from [] rest"
proof -
  from assms have "split_ws_from [] (t @ CHR '' '' # rest) = split_ws_from ([] @ t) (CHR '' '' # rest)"
    by (intro split_ws_from_token) (simp add: is_token_def)
  also from assms have "\<dots> = t # split_ws_from [] rest"
    by (simp add: is_space_def is_token_def)
  finally show ?thesis .
qed

lemma split_ws_token_end:
  "is_token t \<Longrightarrow> split_ws_from [] t = [t]"
  using split_ws_from_token [of t "[]" "[]"] by (simp add: is_token_def)

lemma digit_char_props:
  "k < 10 \<Longrightarrow> is_digit (digit_char k) \<and> digit_val (digit_char k) = k"
proof -
  assume "k < 10"
  then have "k \<in> {0, 1, 2, 3, 4, 5, 6, 7, 8, 9}" by auto
  then show ?thesis
    by (auto simp: digit_char_def is_digit_def digit_val_def)
qed

lemma nat_of_digits_snoc:
  "nat_of_digits (xs @ [c]) = 10 * nat_of_digits xs + digit_val c"
  by (simp add: nat_of_digits_def)

lemma str_of_nat_digits: "is_digits (str_of_nat n) \<and> nat_of_digits (str_of_nat n) = n"
proof (induction n rule: str_of_nat.induct)
  case (1 n)
  show ?case
  proof (cases "n < 10")
    case True
    then show ?thesis
      using digit_char_props [of n]
      by (subst (1 2) str_of_nat.simps) (simp add: is_digits_def nat_of_digits_def)
  next
    case False
    with 1 have ih: "is_digits (str_of_nat (n div 10))" "nat_of_digits (str_of_nat (n div 10)) = n div 10"
      by simp_all
    have "n mod 10 < 10" by simp
    from digit_char_props [OF this] ih False show ?thesis
      by (subst (1 2) str_of_nat.simps) (simp add: is_digits_def nat_of_digits_snoc)
  qed
qed

lemma str_of_nat_zero: "str_of_nat n = ''0'' \<longleftrightarrow> n = 0"
proof
  assume "str_of_nat n = ''0''"
  then have "nat_of_digits (str_of_nat n) = nat_of_digits ''0''" by simp
  then have "n = nat_of_digits ''0''" by (simp only: str_of_nat_digits)
  then show "n = 0" by (simp add: nat_of_digits_def digit_val_def)
next
  assume "n = 0"
  then show "str_of_nat n = ''0''"
    by (simp add: str_of_nat.simps digit_char_def)
qed

lemma is_digits_token: "is_digits s \<Longrightarrow> is_token s"
  by (auto simp: is_digits_def is_token_def no_space_def list_all_iff digit_not_space)

lemma looks_date_token:
  assumes "looks_date d" "is_token d"
  shows "length d = 10" "is_digit (hd d)"
proof -
  from assms(2) have s: "strip d = d" by (rule strip_token)
  with assms(1) show "length d = 10"
    by (simp add: looks_date_def Let_def)
  from assms(1) s have "is_digits (take 4 d)" "d \<noteq> []"
    using assms(2) by (simp_all add: looks_date_def Let_def is_token_def)
  then show "is_digit (hd d)"
    by (cases d) (auto simp: is_digits_def)
qed

lemma starts_with_hd: "starts_with p s \<Longrightarrow> p \<noteq> [] \<Longrightarrow> s \<noteq> [] \<and> hd s = hd p"
  by (cases p; cases s) (auto simp: starts_with_def)

lemma digit_line_is_no_header:
  assumes "s \<noteq> []" "is_digit (hd s)"
  shows "\<not> (starts_with ''DATE'' s \<or> starts_with ''---'' s \<or> starts_with ''Date'' s)"
proof
  assume "starts_with ''DATE'' s \<or> starts_with ''---'' s \<or> starts_with ''Date'' s"
  then have "hd s = CHR ''D'' \<or> hd s = CHR ''-''"
    by (auto dest: starts_with_hd)
  with assms(2) show False
    by (auto simp: is_digit_def)
qed

lemma split_ws_59:
  "split_ws_from [] (CHR ''5'' # CHR ''9'' # CHR '' '' # rest) = ''59'' # split_ws_from [] rest"
  by (simp add: is_space_def)

lemma split_canonical_line:
  assumes "is_token d" "is_token tm" "is_token b" "is_token m" "is_token c"
    "is_token s'" "is_token r'" "is_token p"
  shows "split_ws (d @ '' '' @ tm @ '' '' @ b @ '' '' @ m @ '' '' @ c @ '' 59 '' @ s'
           @ '' 59 '' @ r' @ '' '' @ p)
         = [d, tm, b, m, c, ''59'', s', ''59'', r', p]"
  using assms
  by (simp add: split_ws_def split_ws_token_sp split_ws_59 split_ws_token_end
      del: split_ws_from.simps)

lemma pick_exchanges_canonical:
  assumes "s' \<notin> set RST_PREFIXES" "r' \<notin> set RST_PREFIXES"
  shows "pick_exchanges [''59'', s', ''59'', r'] = (s', r')"
proof -
  have u: "[0 ..< length [''59'', s', ''59'', r']] = [0, 1, 2, 3]"
    by (simp add: upt_rec)
  have "filter (\<lambda>i. [''59'', s', ''59'', r'] ! i \<in> set RST_PREFIXES) [0, 1, 2, 3] = [0, 2]"
    using assms by (simp add: RST_PREFIXES_def)
  then show ?thesis
    unfolding pick_exchanges_def u by (simp add: Let_def)
qed

lemma ends_with_space_zero_line:
  "ends_with_space_zero (xs @ '' 0'')"
  by (simp add: ends_with_space_zero_def is_space_def)

lemma digit_not_comma: "is_digit c \<Longrightarrow> c \<noteq> CHR '',''"
  by (auto simp: is_digit_def)

lemma digits_no_comma: "is_digits ds \<Longrightarrow> filter (\<lambda>c. c \<noteq> CHR '','') ds = ds"
  unfolding filter_id_conv is_digits_def list_all_iff
  using digit_not_comma by blast

lemma last5: "last [a, s', b, r', p] = p" "butlast [a, s', b, r', p] = [a, s', b, r']"
  by simp_all

lemma take_pts_canonical:
  "take_pts_from_tail [a, s', b, r', str_of_nat n] line = (int n, [a, s', b, r'])"
proof -
  have dg: "is_digits (str_of_nat n)"
    by (simp add: str_of_nat_digits)
  have f: "filter (\<lambda>c. c \<noteq> CHR '','') (str_of_nat n) = str_of_nat n"
    using dg by (rule digits_no_comma)
  have s: "strip (str_of_nat n) = str_of_nat n"
    using dg by (intro strip_token is_digits_token)
  show ?thesis
    unfolding take_pts_from_tail_def last5 f s Let_def
    by (simp add: dg str_of_nat_digits)
qed

lemma parse_canonical_line:
  assumes d: "looks_date d" "is_token d"
    and t: "looks_time tm" "is_token tm"
    and b: "is_token b" and m: "is_token m" and c: "is_token c"
    and s: "is_token s'" "s' \<notin> set RST_PREFIXES"
    and r: "is_token r'" "r' \<notin> set RST_PREFIXES"
    and line: "line = d @ '' '' @ tm @ '' '' @ b @ '' '' @ m @ '' '' @ c @ '' 59 '' @ s'
           @ '' 59 '' @ r' @ '' '' @ str_of_nat n"
  shows "parse_ctestwin_line line =
     Some \<lparr>date = map (\<lambda>c. if c = CHR ''/'' then CHR ''-'' else c) d,
           time = parse_time tm, band_mhz = parse_band_mhz b,
           mode = (if is_digits m \<and> looks_callsign c then ''AM'' else m),
           worked_call = clean_callsign c,
           sent_exch = canon_exchange (extract_exchange_from_token s'),
           rcvd_exch = canon_exchange (extract_exchange_from_token r'),
           pts = int n, dup = False, raw = line\<rparr>"
proof -
  have p: "is_token (str_of_nat n)"
    by (simp add: is_digits_token str_of_nat_digits)
  have parts: "split_ws line = [d, tm, b, m, c, ''59'', s', ''59'', r', str_of_nat n]"
    unfolding line using d(2) t(2) b m c s(1) r(1) p by (rule split_canonical_line)
  have hd_line: "line \<noteq> []" "hd line = hd d"
    using d(2) by (simp_all add: line is_token_def)
  have "last line = last (str_of_nat n)"
    using p by (simp add: line is_token_def)
  moreover have "\<not> is_space (last (str_of_nat n))"
    using p by (simp add: is_token_def no_space_def list_all_iff)
  moreover have dg: "is_digit (hd d)"
    using d by (rule looks_date_token)
  ultimately have strip_line: "strip line = line"
    using hd_line by (intro strip_no_space_ends) (simp_all add: digit_not_space)
  have no_header: "\<not> (starts_with ''DATE'' line \<or> starts_with ''---'' line \<or> starts_with ''Date'' line)"
    using hd_line dg by (intro digit_line_is_no_header) simp_all
  have pick: "pick_exchanges [''59'', s', ''59'', r'] = (s', r')"
    using s(2) r(2) by (rule pick_exchanges_canonical)
  have zero: "ends_with_space_zero line" if "n = 0"
  proof -
    from that have "str_of_nat n = ''0''" by (simp add: str_of_nat_zero)
    then have "line = (d @ '' '' @ tm @ '' '' @ b @ '' '' @ m @ '' '' @ c @ '' 59 '' @ s'
           @ '' 59 '' @ r') @ '' 0''"
      by (simp add: line)
    then show ?thesis
      by (simp only: ends_with_space_zero_line)
  qed
  show ?thesis
    unfolding parse_ctestwin_line_def strip_line parts Let_def
    using hd_line(1) no_header d(1) t(1) zero
    by (simp add: take_pts_canonical pick)
qed

lemma strip_map:
  assumes "\<And>c. is_space (f c) = is_space c"
  shows "strip (map f x) = map f (strip x)"
proof -
  have "(is_space \<circ> f) = is_space"
    using assms by (simp add: fun_eq_iff)
  then show ?thesis
    by (simp add: strip_def lstrip_def rstrip_def dropWhile_map rev_map)
qed

lemma length10:
  "length s = 10 \<Longrightarrow> \<exists>a b c d e f g h i j. s = [a, b, c, d, e, f, g, h, i, j]"
  by (simp add: eval_nat_numeral length_Suc_conv) blast

lemma length5: "length s = 5 \<Longrightarrow> \<exists>a b c d e. s = [a, b, c, d, e]"
  by (simp add: eval_nat_numeral length_Suc_conv) blast

lemma length4: "length s = 4 \<Longrightarrow> \<exists>a b c d. s = [a, b, c, d]"
  by (simp add: eval_nat_numeral length_Suc_conv) blast

lemma sep_not_space: "c \<in> set ''-/:'' \<Longrightarrow> \<not> is_space c"
  by (auto simp: is_space_def)

lemma is_hhmm_props:
  assumes "is_hhmm x"
  shows "is_token x" "looks_time x"
proof -
  from assms obtain a b c d e where x: "x = [a, b, c, d, e]"
    using length5 [of x] by (auto simp: is_hhmm_def)
  with assms have dg: "is_digit a" "is_digit b" "c = CHR '':''" "is_digit d" "is_digit e"
    by (simp_all add: is_hhmm_def is_digits_def)
  then show tok: "is_token x"
    by (simp add: x is_token_def no_space_def digit_not_space sep_not_space)
  then have "strip x = x" by (rule strip_token)
  with assms show "looks_time x"
    by (simp add: looks_time_def)
qed

lemma export_time:
  assumes "looks_time T"
  shows "is_token (strip (parse_time T))" "looks_time (strip (parse_time T))"
proof -
  let ?s = "strip T"
  from assms have ne: "T \<noteq> []"
    by (auto simp: looks_time_def is_hhmm_def is_4digits_def strip_empty)
  have h: "is_hhmm (parse_time T)"
  proof (cases "is_hhmm ?s")
    case True
    with ne show ?thesis by (simp add: parse_time_def Let_def)
  next
    case False
    with assms have four: "is_4digits ?s" by (simp add: looks_time_def)
    then obtain a b c d where s: "?s = [a, b, c, d]"
      using length4 [of ?s] by (auto simp: is_4digits_def)
    with four have "is_hhmm (take 2 ?s @ '':'' @ drop 2 ?s)"
      by (simp add: is_4digits_def is_hhmm_def is_digits_def)
    with False four ne show ?thesis by (simp add: parse_time_def Let_def)
  qed
  then have "strip (parse_time T) = parse_time T"
    by (intro strip_token is_hhmm_props)
  with h show "is_token (strip (parse_time T))" "looks_time (strip (parse_time T))"
    by (simp_all add: is_hhmm_props)
qed

lemma export_date:
  assumes "looks_date D"
  shows "is_token (strip (map (\<lambda>c. if c = CHR ''/'' then CHR ''-'' else c) D))"
    "looks_date (strip (map (\<lambda>c. if c = CHR ''/'' then CHR ''-'' else c) D))"
proof -
  let ?f = "\<lambda>c. if c = CHR ''/'' then CHR ''-'' else c"
  let ?s = "strip D"
  have sp: "\<And>c. is_space (?f c) = is_space c"
    by (simp add: is_space_def)
  have m: "strip (map ?f D) = map ?f ?s"
    using sp by (rule strip_map)
  from assms obtain a b c d e f g h i j where s: "?s = [a, b, c, d, e, f, g, h, i, j]"
    using length10 [of ?s] by (auto simp: looks_date_def Let_def)
  with assms have dg: "is_digit a" "is_digit b" "is_digit c" "is_digit d" "e \<in> set ''-/''"
    "is_digit f" "is_digit g" "h \<in> set ''-/''" "is_digit i" "is_digit j"
    by (simp_all add: looks_date_def Let_def is_digits_def)
  have keep: "\<And>x. is_digit x \<Longrightarrow> ?f x = x"
    by (auto simp: is_digit_def)
  have seps: "?f e \<in> set ''-/''" "?f h \<in> set ''-/''"
    using dg by auto
  have ms: "map ?f ?s = [a, b, c, d, ?f e, f, g, ?f h, i, j]"
    using dg by (simp add: s keep)
  have "\<not> is_space e" "\<not> is_space h"
    using dg by (auto simp: is_space_def)
  then have nsp: "\<not> is_space (?f e)" "\<not> is_space (?f h)"
    by (simp_all add: sp)
  show tok: "is_token (strip (map ?f D))"
    unfolding m ms using dg nsp
    by (simp add: is_token_def no_space_def digit_not_space)
  then have "strip (strip (map ?f D)) = strip (map ?f D)" by (rule strip_token)
  then show "looks_date (strip (map ?f D))"
    unfolding looks_date_def Let_def m ms using dg seps
    by (simp add: is_digits_def)
qed

lemma str_of_digits_digits:
  assumes "d \<noteq> []" "list_all is_digit d"
  shows "is_digits (str_of_digits d)"
proof (cases "dropWhile (\<lambda>c. c = CHR ''0'') d")
  case Nil
  show ?thesis
    unfolding str_of_digits_def Nil by (simp add: is_digits_def is_digit_def)
next
  case (Cons a r)
  have "set (dropWhile (\<lambda>c. c = CHR ''0'') d) \<subseteq> set d"
    by (auto dest: set_dropWhileD)
  with assms(2) have "list_all is_digit (a # r)"
    unfolding Cons by (auto simp: list_all_iff)
  then show ?thesis
    unfolding str_of_digits_def Cons by (simp add: is_digits_def)
qed

lemma canon_exchange_fixed:
  assumes "canon_exchange S = S"
  shows "S = [] \<or> is_digits S"
proof (cases "S = []")
  case True
  then show ?thesis by simp
next
  case False
  let ?d = "filter is_digit (strip S)"
  from assms False have d: "?d \<noteq> []" and eq: "S = str_of_digits ?d"
    by (auto simp: canon_exchange_def Let_def split: if_splits)
  have "list_all is_digit ?d"
    by (simp add: list_all_iff)
  with d have "is_digits (str_of_digits ?d)"
    by (rule str_of_digits_digits)
  with eq show ?thesis by simp
qed

lemma digits_filter: "is_digits S \<Longrightarrow> filter is_digit S = S"
  by (simp add: is_digits_def list_all_iff filter_id_conv)

lemma rst_take2: "x \<in> set RST_PREFIXES \<Longrightarrow> take 2 x = x"
  by (auto simp: RST_PREFIXES_def)

lemma exchange_round_trip:
  assumes "canon_exchange S = S" "take 2 S \<notin> set RST_PREFIXES"
  shows "is_token (or_default (canon_exchange S) ''-'')"
    "or_default (canon_exchange S) ''-'' \<notin> set RST_PREFIXES"
    "canon_exchange (extract_exchange_from_token (or_default (canon_exchange S) ''-'')) = S"
proof -
  consider "S = []" | "S \<noteq> []" "is_digits S"
    using canon_exchange_fixed [OF assms(1)] by blast
  then have "is_token (or_default (canon_exchange S) ''-'')
    \<and> or_default (canon_exchange S) ''-'' \<notin> set RST_PREFIXES
    \<and> canon_exchange (extract_exchange_from_token (or_default (canon_exchange S) ''-'')) = S"
  proof cases
    case 1
    have e: "extract_exchange_from_token ''-'' = []"
      by (simp add: extract_exchange_from_token_def strip_def lstrip_def rstrip_def is_space_def)
    have c: "canon_exchange [] = []"
      by (simp add: canon_exchange_def strip_empty)
    have t: "is_token ''-''"
      by (simp add: is_token_def no_space_def is_space_def)
    have "''-'' \<notin> set RST_PREFIXES"
      by (simp add: RST_PREFIXES_def)
    with 1 e c t show ?thesis
      by (simp add: or_default_def)
  next
    case 2
    then have tok: "is_token S" by (simp add: is_digits_token)
    then have st: "strip S = S" by (rule strip_token)
    have nr: "S \<notin> set RST_PREFIXES"
      using assms(2) rst_take2 [of S] by auto
    have nd: "S \<noteq> ''-''"
      using 2 by (auto simp: is_digits_def is_digit_def)
    have "extract_exchange_from_token S = S"
      using 2 nr nd assms(2) by (simp add: extract_exchange_from_token_def st digits_filter)
    with 2 tok nr assms(1) show ?thesis
      by (simp add: or_default_def)
  qed
  then show "is_token (or_default (canon_exchange S) ''-'')"
    "or_default (canon_exchange S) ''-'' \<notin> set RST_PREFIXES"
    "canon_exchange (extract_exchange_from_token (or_default (canon_exchange S) ''-'')) = S"
    by simp_all
qed

lemma export_ready_round_trip:
  assumes "export_ready q"
  shows "map_option qso_tuple (parse_ctestwin_line (qso_to_ctestwin_line q)) = Some (qso_tuple q)"
proof -
  let ?d = "strip (map (\<lambda>c. if c = CHR ''/'' then CHR ''-'' else c) (date q))"
  let ?tm = "strip (parse_time (time q))"
  let ?s = "or_default (canon_exchange (sent_exch q)) ''-''"
  let ?r = "or_default (canon_exchange (rcvd_exch q)) ''-''"
  from assms have h:
    "looks_date (date q)" "looks_time (time q)"
    "is_token (band_mhz q)" "parse_band_mhz (band_mhz q) = band_mhz q"
    "canon_band_token (band_mhz q) = band_mhz q"
    "is_token (mode q)" "upper (mode q) = mode q"
    "\<not> (is_digits (mode q) \<and> looks_callsign (worked_call q))"
    "is_token (worked_call q)" "upper (worked_call q) = worked_call q"
    "canon_exchange (sent_exch q) = sent_exch q" "take 2 (sent_exch q) \<notin> set RST_PREFIXES"
    "canon_exchange (rcvd_exch q) = rcvd_exch q" "take 2 (rcvd_exch q) \<notin> set RST_PREFIXES"
    "0 \<le> pts q"
    by (simp_all add: export_ready_def)
  have band: "or_default (canon_band_token (band_mhz q)) ''50'' = band_mhz q"
    using h(3,5) by (simp add: or_default_def is_token_def)
  have md: "upper (strip (or_default (mode q) ''AM'')) = mode q"
    using h(6,7) by (simp add: or_default_def is_token_def strip_token)
  have call: "clean_callsign (worked_call q) = worked_call q"
    using h(9,10) by (simp add: clean_callsign_def is_token_def strip_token)
  have p: "str_of_int (pts q) = str_of_nat (nat (pts q))"
    using h(15) by (simp add: str_of_int_def)
  have line: "qso_to_ctestwin_line q =
      ?d @ '' '' @ ?tm @ '' '' @ band_mhz q @ '' '' @ mode q @ '' '' @ worked_call q @ '' 59 ''
        @ ?s @ '' 59 '' @ ?r @ '' '' @ str_of_nat (nat (pts q))"
    unfolding qso_to_ctestwin_line_def Let_def band md call p by (rule refl)
  have "parse_ctestwin_line (qso_to_ctestwin_line q) =
     Some \<lparr>date = map (\<lambda>c. if c = CHR ''/'' then CHR ''-'' else c) ?d,
           time = parse_time ?tm, band_mhz = parse_band_mhz (band_mhz q),
           mode = (if is_digits (mode q) \<and> looks_callsign (worked_call q) then ''AM'' else mode q),
           worked_call = clean_callsign (worked_call q),
           sent_exch = canon_exchange (extract_exchange_from_token ?s),
           rcvd_exch = canon_exchange (extract_exchange_from_token ?r),
           pts = int (nat (pts q)), dup = False, raw = qso_to_ctestwin_line q\<rparr>"
    using export_date [OF h(1)] export_time [OF h(2)] h(3) h(6) h(9)
      exchange_round_trip(1,2) [OF h(11,12)] exchange_round_trip(1,2) [OF h(13,14)] line
    by (intro parse_canonical_line) simp_all
  then show ?thesis
    using h(4,8,15) call exchange_round_trip(3) [OF h(11,12)] exchange_round_trip(3) [OF h(13,14)]
    by (simp add: qso_tuple_def)
qed


text \<open>
  C9, as the code has it. The export writes the band canonicalized, the mode in upper
  case and both signal reports as \<open>59\<close>, and the parser takes a token \<open>55\<close> to \<open>59\<close> for a
  signal report and strips such a prefix from an exchange. So the round trip gives back
  the tuples (callsign, band, mode, sent, rcvd, pts) of the records that are already in
  the exported form (\<open>export_ready\<close>): every such record is exported to a line that the
  parser accepts, and the lines of a list of such records parse to the same tuples in
  the same order.
\<close>

theorem export_ready_records_round_trip:
  assumes "list_all export_ready qs"
  shows "map qso_tuple (parse_logsheet_ctestwin (map qso_to_ctestwin_line qs)) = map qso_tuple qs"
  using assms
proof (induction qs)
  case Nil
  show ?case by (simp add: parse_logsheet_ctestwin_def map_filter_simps)
next
  case (Cons q qs)
  then have "export_ready q" by simp
  then obtain r where r: "parse_ctestwin_line (qso_to_ctestwin_line q) = Some r"
    and t: "qso_tuple r = qso_tuple q"
    using export_ready_round_trip [of q] by auto
  from Cons have "map qso_tuple (parse_logsheet_ctestwin (map qso_to_ctestwin_line qs))
      = map qso_tuple qs"
    by simp
  with r t show ?case
    by (simp add: parse_logsheet_ctestwin_def map_filter_simps)
qed

lemma scenario_parsed:
  "parse_logsheet_ctestwin
     [''2025-05-05 10:00 50 AM JA1ABC 59 5 59 12 2'', ''2025-05-05 10:05 50 AM JA1XYZ 59 5 59 - 0'']
   = [\<lparr>date = ''2025-05-05'', time = ''10:00'', band_mhz = ''50'', mode = ''AM'',
       worked_call = ''JA1ABC'', sent_exch = ''5'', rcvd_exch = ''12'', pts = 2, dup = False,
       raw = ''2025-05-05 10:00 50 AM JA1ABC 59 5 59 12 2''\<rparr>,
      \<lparr>date = ''2025-05-05'', time = ''10:05'', band_mhz = ''50'', mode = ''AM'',
       worked_call = ''JA1XYZ'', sent_exch = ''5'', rcvd_exch = [], pts = 0, dup = False,
       raw = ''2025-05-05 10:05 50 AM JA1XYZ 59 5 59 - 0''\<rparr>]"
  by code_simp

lemma scenario_export_ready:
  "list_all export_ready
     [\<lparr>date = ''2025-05-05'', time = ''10:00'', band_mhz = ''50'', mode = ''AM'',
       worked_call = ''JA1ABC'', sent_exch = ''5'', rcvd_exch = ''12'', pts = 2, dup = False,
       raw = ''2025-05-05 10:00 50 AM JA1ABC 59 5 59 12 2''\<rparr>,
      \<lparr>date = ''2025-05-05'', time = ''10:05'', band_mhz = ''50'', mode = ''AM'',
       worked_call = ''JA1XYZ'', sent_exch = ''5'', rcvd_exch = [], pts = 0, dup = False,
       raw = ''2025-05-05 10:05 50 AM JA1XYZ 59 5 59 - 0''\<rparr>]"
  by code_simp

theorem export_ready_records_round_trip_witness:
  "list_all export_ready (parse_logsheet_ctestwin
     [''2025-05-05 10:00 50 AM JA1ABC 59 5 59 12 2'', ''2025-05-05 10:05 50 AM JA1XYZ 59 5 59 - 0''])
   \<and> map qso_tuple (parse_logsheet_ctestwin (map qso_to_ctestwin_line (parse_logsheet_ctestwin
         [''2025-05-05 10:00 50 AM JA1ABC 59 5 59 12 2'', ''2025-05-05 10:05 50 AM JA1XYZ 59 5 59 - 0''])))
       = [(''JA1ABC'', ''50'', ''AM'', ''5'', ''12'', 2), (''JA1XYZ'', ''50'', ''AM'', ''5'', [], 0)]"
proof -
  have h: "list_all export_ready (parse_logsheet_ctestwin
     [''2025-05-05 10:00 50 AM JA1ABC 59 5 59 12 2'', ''2025-05-05 10:05 50 AM JA1XYZ 59 5 59 - 0''])"
    by (simp only: scenario_parsed scenario_export_ready)
  from export_ready_records_round_trip [OF h] h show ?thesis
    by (simp add: scenario_parsed qso_tuple_def)
qed

text \<open>
  C9, as the claim has it, fails. A log with the band written \<open>50.0\<close> and the mode in
  lower case, and a contact whose received exchange is the number 59, is parsed, exported
  and parsed again: the band comes back as \<open>50\<close>, the mode as \<open>AM\<close>, and the received
  exchange 59 is lost, since the parser reads it as a signal report.
\<close>

lemma changed_log_parsed:
  "parse_logsheet_ctestwin
     [''2025-05-05 10:00 50.0 am JA1ABC 59 5 59 12 2'', ''2025-05-05 10:05 50 AM JA1XYZ 5905 5959 2'']
   = [\<lparr>date = ''2025-05-05'', time = ''10:00'', band_mhz = ''50.0'', mode = ''am'',
       worked_call = ''JA1ABC'', sent_exch = ''5'', rcvd_exch = ''12'', pts = 2, dup = False,
       raw = ''2025-05-05 10:00 50.0 am JA1ABC 59 5 59 12 2''\<rparr>,
      \<lparr>date = ''2025-05-05'', time = ''10:05'', band_mhz = ''50'', mode = ''AM'',
       worked_call = ''JA1XYZ'', sent_exch = ''5'', rcvd_exch = ''59'', pts = 2, dup = False,
       raw = ''2025-05-05 10:05 50 AM JA1XYZ 5905 5959 2''\<rparr>]"
  by code_simp

lemma changed_log_exported:
  "map qso_to_ctestwin_line
     [\<lparr>date = ''2025-05-05'', time = ''10:00'', band_mhz = ''50.0'', mode = ''am'',
       worked_call = ''JA1ABC'', sent_exch = ''5'', rcvd_exch = ''12'', pts = 2, dup = False,
       raw = ''2025-05-05 10:00 50.0 am JA1ABC 59 5 59 12 2''\<rparr>,
      \<lparr>date = ''2025-05-05'', time = ''10:05'', band_mhz = ''50'', mode = ''AM'',
       worked_call = ''JA1XYZ'', sent_exch = ''5'', rcvd_exch = ''59'', pts = 2, dup = False,
       raw = ''2025-05-05 10:05 50 AM JA1XYZ 5905 5959 2''\<rparr>]
   = [''2025-05-05 10:00 50 AM JA1ABC 59 5 59 12 2'', ''2025-05-05 10:05 50 AM JA1XYZ 59 5 59 59 2'']"
  by code_simp

lemma changed_log_reparsed:
  "map qso_tuple (parse_logsheet_ctestwin
     [''2025-05-05 10:00 50 AM JA1ABC 59 5 59 12 2'', ''2025-05-05 10:05 50 AM JA1XYZ 59 5 59 59 2''])
   = [(''JA1ABC'', ''50'', ''AM'', ''5'', ''12'', 2), (''JA1XYZ'', ''50'', ''AM'', ''5'', [], 2)]"
  by code_simp

theorem round_trip_changes_tuples:
  "map qso_tuple (parse_logsheet_ctestwin
     [''2025-05-05 10:00 50.0 am JA1ABC 59 5 59 12 2'', ''2025-05-05 10:05 50 AM JA1XYZ 5905 5959 2''])
     = [(''JA1ABC'', ''50.0'', ''am'', ''5'', ''12'', 2), (''JA1XYZ'', ''50'', ''AM'', ''5'', ''59'', 2)]
   \<and> map qso_tuple (parse_logsheet_ctestwin (map qso_to_ctestwin_line (parse_logsheet_ctestwin
     [''2025-05-05 10:00 50.0 am JA1ABC 59 5 59 12 2'', ''2025-05-05 10:05 50 AM JA1XYZ 5905 5959 2''])))
     = [(''JA1ABC'', ''50'', ''AM'', ''5'', ''12'', 2), (''JA1XYZ'', ''50'', ''AM'', ''5'', [], 2)]"
  by (simp only: changed_log_parsed changed_log_exported changed_log_reparsed)
     (simp add: qso_tuple_def)


end
